theory Spec2Isabelle
  imports
    Complex_Main
    "HOL-Library.Char_ord"
    "HOL-Library.List_Lexorder"
    "HOL-Library.Product_Lexorder"
    "HOL-Library.Multiset"
begin

section \<open>The estimator of app.py\<close>

text \<open>
  \<open>est_1rm_epley\<close> (lines 39-43). \<open>pd.isna\<close> of an argument is \<open>= None\<close>; the
  disjunction is evaluated left to right, so \<open>reps <= 0\<close> is only read of a defined count.
\<close>

definition est_1rm_epley :: "real option \<Rightarrow> int option \<Rightarrow> real option" where
  "est_1rm_epley weight reps =
     (if weight = None \<or> reps = None \<or> the reps \<le> 0 then None
      else Some (the weight * (1 + real_of_int (the reps) / 30)))"

section \<open>Data model of app.py\<close>

text \<open>
  A row of the \<open>workouts\<close> table as \<open>db_load_sets\<close> hands it to the rest of the
  script. \<open>date\<close> is a \<open>datetime.date\<close>, modelled as a day ordinal; \<open>exercise\<close>
  and the note (field \<open>note_text\<close>) are strings. \<open>set_no\<close> and \<open>reps\<close> are
  nullable \<open>Int64\<close> columns and \<open>weight_kg\<close> is a float column, all three produced
  by \<open>pd.to_numeric(..., errors="coerce")\<close>: a missing or non-numeric cell is
  \<open>NA\<close>/\<open>NaN\<close>, modelled as \<open>None\<close>. Floats are idealised as reals (no rounding);
  \<open>None\<close> in a \<open>real option\<close> stands for \<open>NaN\<close>/\<open>None\<close>.
\<close>

record workout =
  date :: int
  exercise :: string
  set_no :: "int option"
  weight_kg :: "real option"
  reps :: "int option"
  note_text :: string

datatype py_error = KeyError | ValueError

text \<open>A DataFrame: its rows in order, each with its index label.\<close>

type_synonym frame = "(nat \<times> workout) list"

text \<open>\<open>EPS = 0.1\<close> (line 36).\<close>

definition EPS :: real where
  "EPS = 1 / 10"

text \<open>The derived column \<open>e1rm\<close>: every place that reads it has filled it with
  \<open>est_1rm_epley(r["weight_kg"], r["reps"])\<close> row by row (lines 193, 354, 374, 471, 474,
  559, 591).\<close>

definition e1rm :: "workout \<Rightarrow> real option" where
  "e1rm r = est_1rm_epley (weight_kg r) (reps r)"

section \<open>Loading and column operations\<close>

text \<open>
  \<open>db_load_sets\<close> (lines 181-194): \<open>pd.DataFrame(res.data)\<close> labels the rows
  \<open>0, 1, ...\<close> in the order the store returns them. For \<open>res.data = []\<close> the frame has no
  rows and no columns and is returned as it is (line 184); any other frame has every column
  of the table. So for the loaded frame \<open>sets\<close>, reading a column (\<open>sets["exercise"]\<close>,
  \<open>sets["date"]\<close>) raises \<open>KeyError\<close> exactly when \<open>sets = []\<close>. Frames filtered out of a
  loaded frame keep its columns, also when no row is left.
\<close>

definition db_load_sets :: "workout list \<Rightarrow> frame" where
  "db_load_sets data = enumerate 0 data"

text \<open>\<open>Series.max()\<close>: missing values are skipped; the result is missing when nothing is
  left.\<close>

fun col_max :: "'a::linorder option list \<Rightarrow> 'a option" where
  "col_max [] = None"
| "col_max (None # xs) = col_max xs"
| "col_max (Some v # xs) = (case col_max xs of None \<Rightarrow> Some v | Some m \<Rightarrow> Some (max v m))"

text \<open>\<open>Series.idxmax()\<close>: the label of the first row holding the maximum, missing values
  skipped; \<open>ValueError\<close> on an empty column; no label (\<open>NaN\<close>, what pandas 1.x and
  2.x return for a float column) when every value is missing.\<close>

definition idxmax :: "(nat \<times> real option) list \<Rightarrow> py_error + nat option" where
  "idxmax col =
     (if col = [] then Inl ValueError
      else case col_max (map snd col) of
             None \<Rightarrow> Inr None
           | Some m \<Rightarrow> Inr (map_option fst (find (\<lambda>(i, v). v = Some m) col)))"

text \<open>\<open>sort_values("set_no")\<close>: ascending, missing set numbers last. The sort is modelled
  as the stable insertion sort \<open>sort_key\<close>; rows with equal set numbers keep their order.\<close>

definition set_no_key :: "nat \<times> workout \<Rightarrow> nat \<times> int" where
  "set_no_key ir = (case set_no (snd ir) of None \<Rightarrow> (1, 0) | Some n \<Rightarrow> (0, n))"

definition sort_values_set_no :: "frame \<Rightarrow> frame" where
  "sort_values_set_no df = sort_key set_no_key df"

text \<open>\<open>dropna(subset=["e1rm"])\<close>.\<close>

definition dropna_e1rm :: "frame \<Rightarrow> frame" where
  "dropna_e1rm df = filter (\<lambda>(i, r). e1rm r \<noteq> None) df"

section \<open>Previous session in the add-set form (lines 346-404)\<close>

text \<open>The form's \<open>exercise\<close> is the stripped new name if that is not empty, else the
  selection, which is \<open>None\<close> when the body part has no exercise: a \<open>string option\<close>.
  \<open>if exercise:\<close> holds of a non-empty string.\<close>

definition truthy :: "string option \<Rightarrow> bool" where
  "truthy ex = (case ex of None \<Rightarrow> False | Some s \<Rightarrow> s \<noteq> [])"

text \<open>The columns kept of \<open>prev_df\<close>: set number, weight, reps, e1rm, note.\<close>

type_synonym prev_cols = "int option \<times> real option \<times> int option \<times> real option \<times> string"

definition prev_columns :: "nat \<times> workout \<Rightarrow> nat \<times> prev_cols" where
  "prev_columns ir =
     (fst ir, set_no (snd ir), weight_kg (snd ir), reps (snd ir), e1rm (snd ir), note_text (snd ir))"

text \<open>What a block shows: the previous day, its table and its session best, or the caption
  that there is no previous record.\<close>

datatype prev_out =
    Prev (prev_day: "int option") (prev_df: "(nat \<times> prev_cols) list") (prev_best: "real option")
  | NoPrev

text \<open>The first block (lines 349-366), under \<open>if exercise:\<close>; \<open>None\<close> when it is skipped.
  \<open>prev_mask\<close> is computed from two columns of \<open>sets\<close> before \<open>sets.empty\<close> is tested.\<close>

definition prev_guarded :: "frame \<Rightarrow> string option \<Rightarrow> int \<Rightarrow> py_error + prev_out option" where
  "prev_guarded sets ex d =
     (if truthy ex then
        (if sets = [] then Inl KeyError
         else
           let prev_mask = map (\<lambda>(i, r). Some (exercise r) = ex \<and> date r < d) sets in
           if sets \<noteq> [] \<and> (\<exists>b \<in> set prev_mask. b) then
             let pday = col_max (map (\<lambda>(i, r). Some (date r))
                          (filter (\<lambda>(i, r). Some (exercise r) = ex \<and> date r < d) sets));
                 pdf = filter (\<lambda>(i, r). Some (exercise r) = ex \<and> Some (date r) = pday) sets;
                 pdf = map prev_columns (sort_values_set_no pdf);
                 pbest = col_max (map (\<lambda>(i, n, w, k, e, t). e) pdf)
             in Inr (Some (Prev pday pdf pbest))
           else Inr (Some NoPrev))
      else Inr None)"

text \<open>The second block (lines 370-386), not under the test of \<open>exercise\<close>.\<close>

definition prev_unguarded :: "frame \<Rightarrow> string option \<Rightarrow> int \<Rightarrow> py_error + prev_out" where
  "prev_unguarded sets ex d =
     (if sets = [] then Inl KeyError
      else
        let prev_mask = map (\<lambda>(i, r). Some (exercise r) = ex \<and> date r < d) sets in
        if sets \<noteq> [] \<and> (\<exists>b \<in> set prev_mask. b) then
          let pday = col_max (map (\<lambda>(i, r). Some (date r))
                       (filter (\<lambda>(i, r). Some (exercise r) = ex \<and> date r < d) sets));
              pdf = filter (\<lambda>(i, r). Some (exercise r) = ex \<and> Some (date r) = pday) sets;
              pdf = map prev_columns (sort_values_set_no pdf);
              pbest = col_max (map (\<lambda>(i, n, w, k, e, t). e) pdf)
          in Inr (Prev pday pdf pbest)
        else Inr NoPrev)"

text \<open>The next set number (lines 398-403): the \<open>try\<close> body reads columns of \<open>sets\<close>, and
  \<open>except Exception\<close> turns any error into \<open>1\<close>.\<close>

definition next_set_no :: "frame \<Rightarrow> int \<Rightarrow> string option \<Rightarrow> int" where
  "next_set_no sets d ex =
     (case (if sets = [] then Inl KeyError
            else
              let exist = filter (\<lambda>(i, r). date r = d \<and> Some (exercise r) = ex) sets;
                  cur_max = col_max (map (\<lambda>(i, r). set_no r) exist)
              in Inr (case cur_max of Some m \<Rightarrow> m + 1 | None \<Rightarrow> 1)) of
        Inl (e :: py_error) \<Rightarrow> 1
      | Inr n \<Rightarrow> n)"

text \<open>The row submitted by the form (lines 414-423), with the columns of the model.\<close>

definition submitted_row :: "frame \<Rightarrow> int \<Rightarrow> string \<Rightarrow> real \<Rightarrow> int \<Rightarrow> string \<Rightarrow> workout" where
  "submitted_row sets d ex w n t =
     \<lparr>date = d, exercise = ex, set_no = Some (next_set_no sets d (Some ex)),
      weight_kg = Some w, reps = Some n, note_text = t\<rparr>"

text \<open>The defined set numbers of one (date, exercise) group of the stored rows.\<close>

definition group_set_nos :: "workout list \<Rightarrow> int \<Rightarrow> string \<Rightarrow> int list" where
  "group_set_nos data d ex =
     map (\<lambda>r. the (set_no r))
       (filter (\<lambda>r. date r = d \<and> exercise r = ex \<and> set_no r \<noteq> None) data)"

section \<open>The day view (lines 462-507)\<close>

text \<open>\<open>today_sets = sets[sets["date"] == day]\<close> (line 466) reads a column of the loaded
  frame with no test of \<open>sets.empty\<close> before it.\<close>

definition today_sets :: "frame \<Rightarrow> int \<Rightarrow> py_error + frame" where
  "today_sets sets day =
     (if sets = [] then Inl KeyError else Inr (filter (\<lambda>(i, r). date r = day) sets))"

definition history :: "frame \<Rightarrow> int \<Rightarrow> frame" where
  "history sets day = filter (\<lambda>(i, r). date r < day) sets"

text \<open>\<open>best_hist\<close> (lines 475-479): the rows of \<open>history\<close> with a defined e1rm, sorted by
  exercise ascending and e1rm descending, grouped by exercise, the first row of each group.
  An exercise with no group is not in the index (\<open>None\<close>); a group's value is never
  missing, since \<open>dropna\<close> has removed those rows.\<close>

definition best_hist :: "frame \<Rightarrow> int \<Rightarrow> string \<Rightarrow> real option" where
  "best_hist sets day =
     (let srt = sort_key (\<lambda>(i, r). (exercise r, - the (e1rm r))) (dropna_e1rm (history sets day))
      in (\<lambda>ex. case filter (\<lambda>(i, r). exercise r = ex) srt of
                 [] \<Rightarrow> None
               | (i, r) # rest \<Rightarrow> e1rm r))"

text \<open>Inside the loop over the day's exercises (lines 481-499).\<close>

definition ex_df :: "frame \<Rightarrow> string \<Rightarrow> frame" where
  "ex_df today ex = sort_values_set_no (filter (\<lambda>(i, r). exercise r = ex) today)"

definition max_e1rm :: "frame \<Rightarrow> real option" where
  "max_e1rm df = col_max (map (\<lambda>(i, r). e1rm r) df)"

text \<open>\<open>is_pr_day = (hist_best_val is None) or (max_e1rm > (hist_best_val + EPS))\<close>; a
  comparison with \<open>NaN\<close> is false.\<close>

definition is_pr_day :: "real option \<Rightarrow> real option \<Rightarrow> bool" where
  "is_pr_day hist_best_val m =
     (hist_best_val = None \<or>
      (case m of None \<Rightarrow> False | Some x \<Rightarrow> x > the hist_best_val + EPS))"

definition best_idx :: "frame \<Rightarrow> py_error + nat option" where
  "best_idx df = idxmax (map (\<lambda>(i, r). (i, e1rm r)) df)"

text \<open>One line of the view: the row with its label, whether it is the session best, and
  whether it carries the record badge.\<close>

record set_line =
  sl_idx :: nat
  sl_row :: workout
  is_session_best :: bool
  show_pr :: bool

record ex_block =
  eb_exercise :: string
  eb_max_e1rm :: "real option"
  eb_hist_best_val :: "real option"
  eb_is_pr_day :: bool
  eb_best_idx :: "nat option"
  eb_lines :: "set_line list"

definition ex_view :: "frame \<Rightarrow> (string \<Rightarrow> real option) \<Rightarrow> string \<Rightarrow> py_error + ex_block" where
  "ex_view today bh ex =
     (let df = ex_df today ex;
          m = max_e1rm df;
          h = bh ex;
          pr = is_pr_day h m
      in case best_idx df of
           Inl e \<Rightarrow> Inl e
         | Inr b \<Rightarrow>
             Inr \<lparr>eb_exercise = ex, eb_max_e1rm = m, eb_hist_best_val = h, eb_is_pr_day = pr,
                  eb_best_idx = b,
                  eb_lines = map (\<lambda>(i, r). \<lparr>sl_idx = i, sl_row = r,
                                            is_session_best = (Some i = b),
                                            show_pr = (Some i = b \<and> pr)\<rparr>) df\<rparr>)"

text \<open>The loop stops at the first error, as the exception would.\<close>

fun for_each :: "('a \<Rightarrow> py_error + 'b) \<Rightarrow> 'a list \<Rightarrow> py_error + 'b list" where
  "for_each f [] = Inr []"
| "for_each f (x # xs) =
     (case f x of
        Inl e \<Rightarrow> Inl e
      | Inr y \<Rightarrow> (case for_each f xs of Inl e \<Rightarrow> Inl e | Inr ys \<Rightarrow> Inr (y # ys)))"

text \<open>The whole view: \<open>None\<close> is the message that the day has no record; otherwise one
  block for each exercise of the day, in \<open>sorted(today_sets["exercise"].unique())\<close>.\<close>

definition day_view :: "frame \<Rightarrow> int \<Rightarrow> py_error + ex_block list option" where
  "day_view sets day =
     (case today_sets sets day of
        Inl e \<Rightarrow> Inl e
      | Inr today \<Rightarrow>
          if today = [] then Inr None
          else
            (case for_each (ex_view today (best_hist sets day))
                    (sort (remdups (map (\<lambda>(i, r). exercise r) today))) of
               Inl e \<Rightarrow> Inl e
             | Inr blocks \<Rightarrow> Inr (Some blocks)))"

section \<open>Session aggregation for the trend charts (lines 555-562 and 587-594)\<close>

text \<open>\<open>ses\<close>: the rows with a defined e1rm, grouped by (date, exercise) with the keys in
  ascending order, each group's maximum e1rm.\<close>

definition ses :: "frame \<Rightarrow> (int \<times> string \<times> real option) list" where
  "ses sets =
     (let tmp = dropna_e1rm sets;
          keys = sort (remdups (map (\<lambda>(i, r). (date r, exercise r)) tmp))
      in map (\<lambda>(d, ex). (d, ex,
                col_max (map (\<lambda>(i, r). e1rm r)
                  (filter (\<lambda>(i, r). date r = d \<and> exercise r = ex) tmp)))) keys)"

text \<open>Both charts compute \<open>ses\<close> only under \<open>if sets.empty: ... else:\<close>; \<open>None\<close> is the
  message that there is no data.\<close>

definition session_trend :: "frame \<Rightarrow> (int \<times> string \<times> real option) list option" where
  "session_trend sets = (if sets = [] then None else Some (ses sets))"

section \<open>The specification's quantities\<close>

text \<open>The session estimated-max as the specification words it: the maximum estimated-max
  among the observations of one (date, exercise), undefined when none is defined.\<close>

definition spec_session_best :: "frame \<Rightarrow> int \<Rightarrow> string \<Rightarrow> real option" where
  "spec_session_best sets d ex =
     col_max (map (\<lambda>(i, r). e1rm r) (filter (\<lambda>(i, r). date r = d \<and> exercise r = ex) sets))"

text \<open>The historical best as the specification words it: the maximum, over the sessions of
  the exercise dated strictly before the target date, of the session estimated-max; sessions
  without one are skipped, and it is undefined when nothing is left.\<close>

definition spec_historical_best :: "frame \<Rightarrow> int \<Rightarrow> string \<Rightarrow> real option" where
  "spec_historical_best sets day ex =
     col_max (map (\<lambda>d. spec_session_best sets d ex)
       (remdups (map (\<lambda>(i, r). date r)
          (filter (\<lambda>(i, r). exercise r = ex \<and> date r < day) sets))))"

section \<open>An example log\<close>

text \<open>Two exercises on two days. On day 2 the squat session reaches 150.05 after 150.0 on
  day 1, the bench session 150.15 after 150.0; the bench sets 2 and 1 tie for the maximum
  and are stored in that order, and bench set 3 has no weight.\<close>

definition example_log :: "workout list" where
  "example_log =
     [\<lparr>date = 1, exercise = ''Squat'', set_no = Some 1, weight_kg = Some 75,
       reps = Some 30, note_text = []\<rparr>,
      \<lparr>date = 1, exercise = ''Bench'', set_no = Some 1, weight_kg = Some 75,
       reps = Some 30, note_text = []\<rparr>,
      \<lparr>date = 2, exercise = ''Squat'', set_no = Some 1, weight_kg = Some (3001 / 40),
       reps = Some 30, note_text = []\<rparr>,
      \<lparr>date = 2, exercise = ''Bench'', set_no = Some 2, weight_kg = Some (3003 / 40),
       reps = Some 30, note_text = []\<rparr>,
      \<lparr>date = 2, exercise = ''Bench'', set_no = Some 1, weight_kg = Some (3003 / 40),
       reps = Some 30, note_text = []\<rparr>,
      \<lparr>date = 2, exercise = ''Bench'', set_no = Some 3, weight_kg = None,
       reps = Some 30, note_text = []\<rparr>]"

section \<open>Properties of the estimator\<close>

text \<open>
  C3. The estimator is undefined exactly when the weight is missing, the repetition count is
  missing, or the repetition count is not positive. For a defined weight \<open>w \<ge> 0\<close> and an
  integer count \<open>n \<ge> 1\<close> it is \<open>w * (1 + n / 30)\<close> (exactly, over the reals), and the
  estimate of weight zero is zero.
\<close>

theorem est_1rm_epley_contract:
  "(est_1rm_epley wt rp = None \<longleftrightarrow>
      wt = None \<or> rp = None \<or> (\<exists>n. rp = Some n \<and> n \<le> 0))
   \<and> (\<forall>w n. 0 \<le> w \<and> 1 \<le> n \<longrightarrow>
         est_1rm_epley (Some w) (Some n) = Some (w * (1 + real_of_int n / 30)))
   \<and> (\<forall>n. 1 \<le> n \<longrightarrow> est_1rm_epley (Some 0) (Some n) = Some 0)"
  by (cases wt; cases rp) (auto simp: est_1rm_epley_def)

theorem est_1rm_epley_contract_witness:
  "est_1rm_epley (Some 100) (Some 5) = Some (350 / 3)
   \<and> est_1rm_epley (Some 0) (Some 5) = Some 0
   \<and> est_1rm_epley (Some 100) (Some 0) = None
   \<and> est_1rm_epley None (Some 5) = None
   \<and> est_1rm_epley (Some 100) None = None"
proof -
  have a: "(0::real) \<le> 100 \<and> (1::int) \<le> 5" by simp
  have b: "(1::int) \<le> 5" by simp
  have c: "\<exists>n. Some (0::int) = Some n \<and> n \<le> 0" by simp
  from est_1rm_epley_contract [of "Some 100" "Some 5"] a
  have "est_1rm_epley (Some 100) (Some 5) = Some (100 * (1 + real_of_int 5 / 30))" by blast
  moreover from est_1rm_epley_contract [of "Some 100" "Some 5"] b
  have "est_1rm_epley (Some 0) (Some 5) = Some 0" by blast
  moreover from est_1rm_epley_contract [of "Some 100" "Some 0"] c
  have "est_1rm_epley (Some 100) (Some 0) = None" by blast
  moreover from est_1rm_epley_contract [of None "Some 5"]
  have "est_1rm_epley None (Some 5) = None" by blast
  moreover from est_1rm_epley_contract [of "Some 100" None]
  have "est_1rm_epley (Some 100) None = None" by blast
  ultimately show ?thesis by simp
qed




section \<open>The column maximum\<close>

lemma col_max_None_iff: "col_max xs = None \<longleftrightarrow> (\<forall>x\<in>set xs. x = None)"
  by (induction xs rule: col_max.induct) (auto split: option.splits)

lemma col_max_Some_iff:
  "col_max xs = Some m \<longleftrightarrow> Some m \<in> set xs \<and> (\<forall>v. Some v \<in> set xs \<longrightarrow> v \<le> m)"
proof (induction xs arbitrary: m rule: col_max.induct)
  case 1
  then show ?case by simp
next
  case (2 xs)
  then show ?case by auto
next
  case (3 v xs)
  show ?case
  proof (cases "col_max xs")
    case None
    then have "\<forall>x\<in>set xs. x = None" by (simp add: col_max_None_iff)
    then have "\<And>u. Some u \<notin> set xs" by auto
    then show ?thesis using None by auto
  next
    case (Some k)
    then have k: "Some k \<in> set xs" "\<forall>u. Some u \<in> set xs \<longrightarrow> u \<le> k"
      using 3 by auto
    have "max v k = m \<longleftrightarrow> (Some m = Some v \<or> Some m \<in> set xs) \<and> v \<le> m \<and> (\<forall>u. Some u \<in> set xs \<longrightarrow> u \<le> m)"
    proof
      assume e: "max v k = m"
      then have "v \<le> m" "k \<le> m" by auto
      moreover have "m = v \<or> m = k" using e by (auto simp: max_def)
      ultimately show "(Some m = Some v \<or> Some m \<in> set xs) \<and> v \<le> m \<and> (\<forall>u. Some u \<in> set xs \<longrightarrow> u \<le> m)"
        using k by (metis order_trans)
    next
      assume a: "(Some m = Some v \<or> Some m \<in> set xs) \<and> v \<le> m \<and> (\<forall>u. Some u \<in> set xs \<longrightarrow> u \<le> m)"
      then have "k \<le> m" using k by blast
      moreover have "m = v \<or> m \<le> k" using a k by auto
      then have "m \<le> max v k" by (auto simp: le_max_iff_disj)
      moreover have "max v k \<le> m" using a \<open>k \<le> m\<close> by simp
      ultimately show "max v k = m" by simp
    qed
    then show ?thesis using Some by auto
  qed
qed


lemma col_max_map_None_iff:
  "col_max (map f xs) = None \<longleftrightarrow> (\<forall>x\<in>set xs. f x = None)"
  by (simp add: col_max_None_iff)

lemma col_max_map_Some_iff:
  "col_max (map f xs) = Some m \<longleftrightarrow>
     (\<exists>x\<in>set xs. f x = Some m) \<and> (\<forall>x\<in>set xs. \<forall>v. f x = Some v \<longrightarrow> v \<le> m)"
  unfolding col_max_Some_iff by (auto simp: image_iff) (metis)+

section \<open>The historical best\<close>

lemma sort_key_head_le:
  assumes "sort_key f xs = y # ys" and "z \<in> set xs"
  shows "f y \<le> f z"
proof -
  have "sorted (map f (sort_key f xs))" by (rule sorted_sort_key)
  then have "\<forall>u \<in> set ys. f y \<le> f u" using assms(1) by simp
  moreover have "z \<in> set (y # ys)" using assms by (metis set_sort)
  ultimately show ?thesis by auto
qed

lemma best_hist_flat:
  "best_hist sets day ex =
     col_max (map (\<lambda>(i, r). e1rm r) (filter (\<lambda>(i, r). exercise r = ex) (history sets day)))"
proof -
  define key :: "nat \<times> workout \<Rightarrow> string \<times> real" where "key = (\<lambda>(i, r). (exercise r, - the (e1rm r)))"
  define g0 where "g0 = filter (\<lambda>(i, r). exercise r = ex) (dropna_e1rm (history sets day))"
  define g where "g = sort_key key g0"
  have bh: "best_hist sets day ex = (case g of [] \<Rightarrow> None | (i, r) # rest \<Rightarrow> e1rm r)"
    by (simp add: best_hist_def g_def g0_def key_def filter_sort)
  have mem: "\<And>i r. (i, r) \<in> set g0 \<longleftrightarrow>
      (i, r) \<in> set (filter (\<lambda>(i, r). exercise r = ex) (history sets day)) \<and> e1rm r \<noteq> None"
    by (auto simp: g0_def dropna_e1rm_def)
  show ?thesis
  proof (cases g)
    case Nil
    then have "g0 = []" by (metis g_def length_sort length_0_conv)
    then have "\<forall>x\<in>set (filter (\<lambda>(i, r). exercise r = ex) (history sets day)). (\<lambda>(i, r). e1rm r) x = None"
      using mem by fastforce
    then have "col_max (map (\<lambda>(i, r). e1rm r) (filter (\<lambda>(i, r). exercise r = ex) (history sets day))) = None"
      unfolding col_max_map_None_iff by blast
    then show ?thesis using Nil bh by simp
  next
    case (Cons y ys)
    obtain i r where y: "y = (i, r)" by (cases y)
    have "y \<in> set g0" using Cons by (metis g_def list.set_intros(1) set_sort)
    then have yin: "(i, r) \<in> set (filter (\<lambda>(i, r). exercise r = ex) (history sets day))"
      and ydef: "e1rm r \<noteq> None" and yex: "exercise r = ex"
      using mem y by auto
    then obtain m where m: "e1rm r = Some m" by auto
    have le: "\<And>j q v. (j, q) \<in> set (filter (\<lambda>(i, r). exercise r = ex) (history sets day))
        \<Longrightarrow> e1rm q = Some v \<Longrightarrow> v \<le> m"
    proof -
      fix j q v
      assume a: "(j, q) \<in> set (filter (\<lambda>(i, r). exercise r = ex) (history sets day))"
        and b: "e1rm q = Some v"
      then have "(j, q) \<in> set g0" using mem by simp
      then have "key y \<le> key (j, q)" using Cons sort_key_head_le g_def by metis
      moreover have "exercise q = ex" using a by simp
      ultimately show "v \<le> m" using y yex m b by (simp add: key_def)
    qed
    have "col_max (map (\<lambda>(i, r). e1rm r) (filter (\<lambda>(i, r). exercise r = ex) (history sets day))) = Some m"
      unfolding col_max_map_Some_iff using yin m le by fastforce
    then show ?thesis using bh Cons y m by simp
  qed
qed

lemma spec_historical_best_flat:
  "spec_historical_best sets day ex =
     col_max (map (\<lambda>(i, r). e1rm r) (filter (\<lambda>(i, r). exercise r = ex) (history sets day)))"
proof -
  define F where "F = filter (\<lambda>(i, r). exercise r = ex) (history sets day)"
  define dates where "dates = remdups (map (\<lambda>(i, r). date r)
          (filter (\<lambda>(i, r). exercise r = ex \<and> date r < day) sets))"
  have inF: "\<And>i r. (i, r) \<in> set F \<longleftrightarrow> (i, r) \<in> set sets \<and> exercise r = ex \<and> date r < day"
    by (auto simp: F_def history_def)
  have ind: "\<And>d. d \<in> set dates \<longleftrightarrow> (\<exists>i r. (i, r) \<in> set F \<and> date r = d)"
    unfolding inF by (force simp: dates_def)
  have sess: "\<And>d i r. d \<in> set dates \<Longrightarrow>
      (i, r) \<in> set (filter (\<lambda>(i, r). date r = d \<and> exercise r = ex) sets) \<longleftrightarrow>
      (i, r) \<in> set F \<and> date r = d"
    unfolding ind inF by auto
  have spec: "spec_historical_best sets day ex = col_max (map (\<lambda>d. spec_session_best sets d ex) dates)"
    by (simp add: spec_historical_best_def dates_def)
  show ?thesis
  proof (cases "col_max (map (\<lambda>(i, r). e1rm r) F)")
    case None
    then have none: "\<forall>x\<in>set F. (\<lambda>(i, r). e1rm r) x = None"
      unfolding col_max_map_None_iff by blast
    have "\<forall>d\<in>set dates. spec_session_best sets d ex = None"
    proof
      fix d assume d: "d \<in> set dates"
      have "\<forall>x\<in>set (filter (\<lambda>(i, r). date r = d \<and> exercise r = ex) sets). (\<lambda>(i, r). e1rm r) x = None"
        using sess [OF d] none by fastforce
      then show "spec_session_best sets d ex = None"
        unfolding spec_session_best_def col_max_map_None_iff .
    qed
    then have "col_max (map (\<lambda>d. spec_session_best sets d ex) dates) = None"
      unfolding col_max_map_None_iff .
    then show ?thesis using None spec by (simp add: F_def)
  next
    case (Some m)
    then have ex_m: "\<exists>x\<in>set F. (\<lambda>(i, r). e1rm r) x = Some m"
      and le_m: "\<forall>x\<in>set F. \<forall>v. (\<lambda>(i, r). e1rm r) x = Some v \<longrightarrow> v \<le> m"
      unfolding col_max_map_Some_iff by blast+
    from ex_m obtain i r where ir: "(i, r) \<in> set F" "e1rm r = Some m" by auto
    have dm: "date r \<in> set dates" using ir ind by blast
    have bound: "\<And>d v. d \<in> set dates \<Longrightarrow> spec_session_best sets d ex = Some v \<Longrightarrow> v \<le> m"
    proof -
      fix d v assume d: "d \<in> set dates" and v: "spec_session_best sets d ex = Some v"
      from v obtain x where x: "x \<in> set (filter (\<lambda>(i, r). date r = d \<and> exercise r = ex) sets)"
        "(\<lambda>(i, r). e1rm r) x = Some v"
        unfolding spec_session_best_def col_max_map_Some_iff by blast
      obtain j q where jq: "x = (j, q)" by (cases x)
      have "(j, q) \<in> set F" using x(1) sess [OF d] jq by blast
      then show "v \<le> m" using le_m x(2) jq by blast
    qed
    have "spec_session_best sets (date r) ex = Some m"
    proof -
      have rin: "(i, r) \<in> set (filter (\<lambda>(i, r'). date r' = date r \<and> exercise r' = ex) sets)"
        using sess [OF dm] ir(1) by blast
      have "\<forall>x\<in>set (filter (\<lambda>(i, r'). date r' = date r \<and> exercise r' = ex) sets).
              \<forall>v. (\<lambda>(i, r). e1rm r) x = Some v \<longrightarrow> v \<le> m"
      proof (intro ballI allI impI)
        fix x v assume x: "x \<in> set (filter (\<lambda>(i, r'). date r' = date r \<and> exercise r' = ex) sets)"
          and v: "(\<lambda>(i, r). e1rm r) x = Some v"
        obtain j q where jq: "x = (j, q)" by (cases x)
        have "(j, q) \<in> set F" using x sess [OF dm] jq by blast
        then show "v \<le> m" using le_m v jq by blast
      qed
      moreover have "\<exists>x\<in>set (filter (\<lambda>(i, r'). date r' = date r \<and> exercise r' = ex) sets).
              (\<lambda>(i, r). e1rm r) x = Some m"
        using rin ir(2) by (intro bexI [of _ "(i, r)"]) auto
      ultimately show ?thesis
        unfolding spec_session_best_def col_max_map_Some_iff by blast
    qed
    then have "col_max (map (\<lambda>d. spec_session_best sets d ex) dates) = Some m"
      unfolding col_max_map_Some_iff using dm bound by blast
    then show ?thesis using Some spec by (simp add: F_def)
  qed
qed

text \<open>
  C4. The historical best the day view uses (\<open>best_hist\<close>, read at the exercise) is the
  maximum, over the sessions of the exercise dated strictly before the target date, of the
  session's maximum estimated-max. Rows with an undefined estimated-max are skipped, and it is
  undefined exactly when no earlier row of the exercise has a defined one; otherwise it is a
  value some earlier row attains and no earlier row exceeds.
\<close>

theorem historical_best_is_max_of_prior_sessions:
  "best_hist sets day ex = spec_historical_best sets day ex
   \<and> (best_hist sets day ex = None \<longleftrightarrow>
        \<not> (\<exists>(i, r) \<in> set sets. exercise r = ex \<and> date r < day \<and> e1rm r \<noteq> None))
   \<and> (\<forall>m. best_hist sets day ex = Some m \<longleftrightarrow>
        (\<exists>(i, r) \<in> set sets. exercise r = ex \<and> date r < day \<and> e1rm r = Some m)
        \<and> (\<forall>(i, r) \<in> set sets. \<forall>v. exercise r = ex \<and> date r < day \<and> e1rm r = Some v \<longrightarrow> v \<le> m))"
proof (intro conjI allI)
  show "best_hist sets day ex = spec_historical_best sets day ex"
    by (simp add: best_hist_flat spec_historical_best_flat)
  show "best_hist sets day ex = None \<longleftrightarrow>
        \<not> (\<exists>(i, r) \<in> set sets. exercise r = ex \<and> date r < day \<and> e1rm r \<noteq> None)"
    unfolding best_hist_flat col_max_map_None_iff by (auto simp: history_def)
  fix m
  show "best_hist sets day ex = Some m \<longleftrightarrow>
        (\<exists>(i, r) \<in> set sets. exercise r = ex \<and> date r < day \<and> e1rm r = Some m)
        \<and> (\<forall>(i, r) \<in> set sets. \<forall>v. exercise r = ex \<and> date r < day \<and> e1rm r = Some v \<longrightarrow> v \<le> m)"
    unfolding best_hist_flat col_max_map_Some_iff by (auto simp: history_def)
qed

theorem historical_best_is_max_of_prior_sessions_witness:
  "best_hist (db_load_sets example_log) 2 ''Squat'' = Some 150
   \<and> spec_historical_best (db_load_sets example_log) 2 ''Squat'' = Some 150
   \<and> best_hist (db_load_sets example_log) 1 ''Squat'' = None
   \<and> spec_historical_best (db_load_sets example_log) 1 ''Squat'' = None"
proof -
  have a: "spec_historical_best (db_load_sets example_log) 2 ''Squat'' = Some 150"
    by code_simp
  have b: "spec_historical_best (db_load_sets example_log) 1 ''Squat'' = None"
    by code_simp
  from historical_best_is_max_of_prior_sessions [of "db_load_sets example_log" 2 "''Squat''"]
  have "best_hist (db_load_sets example_log) 2 ''Squat''
      = spec_historical_best (db_load_sets example_log) 2 ''Squat''" by blast
  moreover
  from historical_best_is_max_of_prior_sessions [of "db_load_sets example_log" 1 "''Squat''"]
  have "best_hist (db_load_sets example_log) 1 ''Squat''
      = spec_historical_best (db_load_sets example_log) 1 ''Squat''" by blast
  ultimately show ?thesis using a b by simp
qed

section \<open>The record flag of the day view\<close>


lemma best_idx_not_error: "df \<noteq> [] \<Longrightarrow> \<exists>b. best_idx df = Inr b"
  by (auto simp: best_idx_def idxmax_def split: option.splits)







section \<open>The session best and its tie-break\<close>













section \<open>Session aggregation\<close>









section \<open>The previous session in the add-set form\<close>

subsection \<open>On a loaded frame with rows\<close>

text \<open>What the day view and the second previous-session block do when the loaded frame has
  at least one row: neither raises; a day without rows gives the message that there is no
  record; an exercise without a row before the reference date gives the caption that there
  is no previous record; otherwise the block shows the latest date before the reference
  date that has a row of the exercise, with exactly that date's rows of the exercise in
  ascending order of set number (missing numbers last), and their maximum estimated-max.\<close>

lemma for_each_Inl_mem:
  "for_each f xs = Inl e \<Longrightarrow> \<exists>x\<in>set xs. f x = Inl e"
  by (induction xs) (auto split: sum.splits)

lemma ex_view_Inl_empty:
  assumes "ex_view today bh ex = Inl e"
  shows "ex_df today ex = []"
proof (rule ccontr)
  assume "ex_df today ex \<noteq> []"
  then obtain b where "best_idx (ex_df today ex) = Inr b"
    using best_idx_not_error by blast
  then show False using assms by (simp add: ex_view_def Let_def)
qed

lemma day_view_loaded_total:
  assumes "sets \<noteq> []"
  shows "\<exists>v. day_view sets day = Inr v"
proof -
  define today where "today = filter (\<lambda>(i, r). date r = day) sets"
  have ts: "today_sets sets day = Inr today"
    using assms by (simp add: today_sets_def today_def)
  show ?thesis
  proof (cases "for_each (ex_view today (best_hist sets day))
                  (sort (remdups (map (\<lambda>(i, r). exercise r) today)))")
    case (Inr blocks)
    then show ?thesis using ts by (simp add: day_view_def)
  next
    case (Inl e)
    from for_each_Inl_mem [OF Inl] obtain ex where
      ex: "ex \<in> set (sort (remdups (map (\<lambda>(i, r). exercise r) today)))"
      and v: "ex_view today (best_hist sets day) ex = Inl e" by blast
    from ex obtain i r where "(i, r) \<in> set today" "exercise r = ex" by auto
    then have "(i, r) \<in> set (ex_df today ex)"
      by (simp add: ex_df_def sort_values_set_no_def)
    then have "ex_df today ex \<noteq> []" by auto
    then show ?thesis using ex_view_Inl_empty [OF v] by simp
  qed
qed

lemma day_view_no_rows:
  "sets \<noteq> [] \<Longrightarrow> \<forall>(i, r) \<in> set sets. date r \<noteq> day \<Longrightarrow> day_view sets day = Inr None"
  by (auto simp: day_view_def today_sets_def filter_empty_conv)

lemma prev_unguarded_no_history:
  assumes "sets \<noteq> []" and "\<forall>(i, r) \<in> set sets. \<not> (Some (exercise r) = ex \<and> date r < d)"
  shows "prev_unguarded sets ex d = Inr NoPrev"
  using assms by (auto simp: prev_unguarded_def Let_def)

lemma prev_unguarded_history:
  assumes "sets \<noteq> []" and "\<exists>(i, r) \<in> set sets. Some (exercise r) = ex \<and> date r < d"
  shows "\<exists>p srt. prev_unguarded sets ex d
            = Inr (Prev (Some p) (map prev_columns srt)
                    (col_max (map (\<lambda>(i, r). e1rm r) srt)))
          \<and> p < d
          \<and> (\<exists>(i, r) \<in> set sets. Some (exercise r) = ex \<and> date r = p)
          \<and> (\<forall>(i, r) \<in> set sets. Some (exercise r) = ex \<and> date r < d \<longrightarrow> date r \<le> p)
          \<and> mset srt = mset (filter (\<lambda>(i, r). Some (exercise r) = ex \<and> date r = p) sets)
          \<and> sorted (map set_no_key srt)"
proof -
  define F where "F = filter (\<lambda>(i, r). Some (exercise r) = ex \<and> date r < d) sets"
  define pday where "pday = col_max (map (\<lambda>(i, r). Some (date r)) F)"
  from assms(2) obtain i0 r0 where r0: "(i0, r0) \<in> set F"
    by (auto simp: F_def)
  then have "pday \<noteq> None"
    unfolding pday_def col_max_map_None_iff by force
  then obtain p where p: "pday = Some p" by auto
  then have pmem: "\<exists>x\<in>set F. (\<lambda>(i, r). Some (date r)) x = Some p"
    and pmax: "\<forall>x\<in>set F. \<forall>v. (\<lambda>(i, r). Some (date r)) x = Some v \<longrightarrow> v \<le> p"
    unfolding pday_def col_max_map_Some_iff by blast+
  define srt where "srt = sort_values_set_no
      (filter (\<lambda>(i, r). Some (exercise r) = ex \<and> date r = p) sets)"
  have mask: "\<exists>b\<in>set (map (\<lambda>(i, r). Some (exercise r) = ex \<and> date r < d) sets). b"
    using assms(2) by auto
  have col: "map (\<lambda>(i, n, w, k, e, t). e) (map prev_columns srt) = map (\<lambda>(i, r). e1rm r) srt"
    by (simp add: prev_columns_def case_prod_beta)
  have res: "prev_unguarded sets ex d
            = Inr (Prev (Some p) (map prev_columns srt) (col_max (map (\<lambda>(i, r). e1rm r) srt)))"
    using assms(1) mask p
    by (simp add: prev_unguarded_def Let_def F_def [symmetric] pday_def [symmetric]
        srt_def [symmetric] col del: map_map)
  from pmem obtain i r where ir: "(i, r) \<in> set F" "date r = p" by auto
  have lt: "p < d" using ir by (auto simp: F_def)
  have ex1: "\<exists>(i, r) \<in> set sets. Some (exercise r) = ex \<and> date r = p"
    using ir by (auto simp: F_def)
  have mx: "\<forall>(i, r) \<in> set sets. Some (exercise r) = ex \<and> date r < d \<longrightarrow> date r \<le> p"
  proof -
    have "\<And>j q. (j, q) \<in> set sets \<Longrightarrow> Some (exercise q) = ex \<Longrightarrow> date q < d \<Longrightarrow> date q \<le> p"
    proof -
      fix j q assume "(j, q) \<in> set sets" "Some (exercise q) = ex" "date q < d"
      then have "(j, q) \<in> set F" by (simp add: F_def)
      then show "date q \<le> p" using pmax by force
    qed
    then show ?thesis by blast
  qed
  have ms: "mset srt = mset (filter (\<lambda>(i, r). Some (exercise r) = ex \<and> date r = p) sets)"
    by (simp add: srt_def sort_values_set_no_def)
  have so: "sorted (map set_no_key srt)"
    by (simp add: srt_def sort_values_set_no_def)
  show ?thesis
    by (rule exI [of _ p], rule exI [of _ srt], intro conjI) (fact res lt ex1 mx ms so)+
qed

subsection \<open>The two blocks\<close>

text \<open>
  C8. Whenever the first block runs (the form's exercise is a non-empty string), it yields
  what the second block yields on the same frame, exercise and date: the same error, or the
  same caption, or the same previous date, the same rows in the same order and the same
  session best. When the exercise is empty or missing, the first block is skipped.
\<close>

theorem prev_blocks_agree:
  "(truthy ex \<longrightarrow>
      prev_guarded sets ex d
        = (case prev_unguarded sets ex d of Inl e \<Rightarrow> Inl e | Inr out \<Rightarrow> Inr (Some out)))
   \<and> (\<not> truthy ex \<longrightarrow> prev_guarded sets ex d = Inr None)"
  by (simp add: prev_guarded_def prev_unguarded_def Let_def)

theorem prev_blocks_agree_witness:
  "truthy (Some ''Squat'')
   \<and> prev_unguarded (db_load_sets example_log) (Some ''Squat'') 2
       = Inr (Prev (Some 1) [(0, Some 1, Some 75, Some 30, Some 150, [])] (Some 150))
   \<and> prev_guarded (db_load_sets example_log) (Some ''Squat'') 2
       = Inr (Some (Prev (Some 1) [(0, Some 1, Some 75, Some 30, Some 150, [])] (Some 150)))
   \<and> prev_guarded (db_load_sets example_log) None 2 = Inr None"
proof -
  have t: "truthy (Some ''Squat'')" by code_simp
  have f: "\<not> truthy None" by code_simp
  have u: "prev_unguarded (db_load_sets example_log) (Some ''Squat'') 2
       = Inr (Prev (Some 1) [(0, Some 1, Some 75, Some 30, Some 150, [])] (Some 150))"
    by code_simp
  note a = prev_blocks_agree [of "Some ''Squat''" "db_load_sets example_log" 2]
  from a have "truthy (Some ''Squat'') \<longrightarrow>
      prev_guarded (db_load_sets example_log) (Some ''Squat'') 2
        = (case prev_unguarded (db_load_sets example_log) (Some ''Squat'') 2 of
             Inl e \<Rightarrow> Inl e | Inr out \<Rightarrow> Inr (Some out))"
    by (rule conjunct1)
  then have "prev_guarded (db_load_sets example_log) (Some ''Squat'') 2
        = (case prev_unguarded (db_load_sets example_log) (Some ''Squat'') 2 of
             Inl e \<Rightarrow> Inl e | Inr out \<Rightarrow> Inr (Some out))"
    using t by (rule mp)
  then have g: "prev_guarded (db_load_sets example_log) (Some ''Squat'') 2
       = Inr (Some (Prev (Some 1) [(0, Some 1, Some 75, Some 30, Some 150, [])] (Some 150)))"
    unfolding u by simp
  note b = prev_blocks_agree [of None "db_load_sets example_log" 2]
  from b have "\<not> truthy None \<longrightarrow> prev_guarded (db_load_sets example_log) None 2 = Inr None"
    by (rule conjunct2)
  then have n: "prev_guarded (db_load_sets example_log) None 2 = Inr None"
    using f by (rule mp)
  show ?thesis by (intro conjI) (fact t u g n)+
qed

subsection \<open>The collection with no rows\<close>

text \<open>
  C5. On the observation collection with no rows the loaded frame has no columns. The
  previous-session blocks compute \<open>prev_mask\<close> from \<open>sets["exercise"]\<close> before
  \<open>sets.empty\<close> is tested, and the day view reads \<open>sets["date"]\<close> with no test at all:
  each raises \<open>KeyError\<close> and returns no ``none'' result. The trend charts test
  \<open>sets.empty\<close> first and show the message that there is no data; the next set number
  is computed under \<open>try\<close> and is \<open>1\<close>.
\<close>

theorem empty_collection_raises:
  "prev_unguarded (db_load_sets []) ex d = Inl KeyError
   \<and> (truthy ex \<longrightarrow> prev_guarded (db_load_sets []) ex d = Inl KeyError)
   \<and> day_view (db_load_sets []) day = Inl KeyError
   \<and> session_trend (db_load_sets []) = None
   \<and> next_set_no (db_load_sets []) d ex = 1"
  by (simp add: prev_unguarded_def prev_guarded_def day_view_def today_sets_def
      session_trend_def next_set_no_def db_load_sets_def)

theorem empty_collection_raises_witness:
  "prev_unguarded (db_load_sets []) (Some ''Squat'') 2 = Inl KeyError
   \<and> prev_guarded (db_load_sets []) (Some ''Squat'') 2 = Inl KeyError
   \<and> day_view (db_load_sets []) 2 = Inl KeyError
   \<and> session_trend (db_load_sets []) = None
   \<and> next_set_no (db_load_sets []) 2 (Some ''Squat'') = 1"
proof -
  have t: "truthy (Some ''Squat'')" by code_simp
  note e = empty_collection_raises [of "Some ''Squat''" 2 2]
  from e have a: "prev_unguarded (db_load_sets []) (Some ''Squat'') 2 = Inl KeyError"
    by (rule conjunct1)
  from e have "truthy (Some ''Squat'') \<longrightarrow>
      prev_guarded (db_load_sets []) (Some ''Squat'') 2 = Inl KeyError"
    by (rule conjunct1 [OF conjunct2])
  then have b: "prev_guarded (db_load_sets []) (Some ''Squat'') 2 = Inl KeyError"
    using t by (rule mp)
  from e have c: "day_view (db_load_sets []) 2 = Inl KeyError
   \<and> session_trend (db_load_sets []) = None
   \<and> next_set_no (db_load_sets []) 2 (Some ''Squat'') = 1"
    by (rule conjunct2 [OF conjunct2])
  show ?thesis using a b c by (intro conjI) simp_all
qed

text \<open>
  C7. On the observation collection with no rows, where no earlier date with an observation
  of the exercise exists, the previous-session lookup does not return ``none'': for every
  exercise and reference date it raises \<open>KeyError\<close>. (On a frame with rows it returns
  the single most recent earlier date with its rows ordered by set number, or ``none'':
  \<open>prev_unguarded_history\<close> and \<open>prev_unguarded_no_history\<close>.)
\<close>

theorem prev_lookup_empty_collection:
  "prev_unguarded (db_load_sets []) ex d = Inl KeyError"
  by (simp add: prev_unguarded_def db_load_sets_def)

theorem prev_lookup_empty_collection_witness:
  "prev_unguarded (db_load_sets []) (Some ''Squat'') 2 = Inl KeyError"
  by (rule prev_lookup_empty_collection [of "Some ''Squat''" 2])

section \<open>The next set number\<close>

lemma map_snd_filter_rows:
  "map snd (filter (\<lambda>(i, r). P r) xs) = filter P (map snd xs)"
  by (induction xs) auto

lemma next_set_no_loaded:
  "next_set_no (db_load_sets data) d (Some ex)
     = (case col_max (map set_no (filter (\<lambda>r. date r = d \<and> exercise r = ex) data)) of
          Some m \<Rightarrow> m + 1 | None \<Rightarrow> 1)"
proof (cases "data = []")
  case True
  then show ?thesis by (simp add: next_set_no_def db_load_sets_def)
next
  case False
  then have ne: "db_load_sets data \<noteq> []"
    by (cases data) (simp_all add: db_load_sets_def)
  have "map (\<lambda>(i, r). set_no r)
          (filter (\<lambda>(i, r). date r = d \<and> Some (exercise r) = Some ex) (db_load_sets data))
      = map set_no (map snd (filter (\<lambda>(i, r). date r = d \<and> exercise r = ex) (db_load_sets data)))"
    by (simp add: case_prod_beta comp_def)
  also have "\<dots> = map set_no (filter (\<lambda>r. date r = d \<and> exercise r = ex) data)"
    unfolding map_snd_filter_rows by (simp add: db_load_sets_def)
  finally show ?thesis using ne by (simp add: next_set_no_def Let_def)
qed

lemma group_set_nos_below_next:
  assumes "k \<in> set (group_set_nos data d ex)"
  shows "k < next_set_no (db_load_sets data) d (Some ex)"
proof -
  from assms obtain r where r: "r \<in> set data" "date r = d" "exercise r = ex" "set_no r = Some k"
    by (auto simp: group_set_nos_def)
  then have "col_max (map set_no (filter (\<lambda>r. date r = d \<and> exercise r = ex) data)) \<noteq> None"
    unfolding col_max_map_None_iff by force
  then obtain m where m: "col_max (map set_no (filter (\<lambda>r. date r = d \<and> exercise r = ex) data)) = Some m"
    by auto
  then have "\<forall>x\<in>set (filter (\<lambda>r. date r = d \<and> exercise r = ex) data). \<forall>v. set_no x = Some v \<longrightarrow> v \<le> m"
    unfolding col_max_map_Some_iff by blast
  then have "k \<le> m" using r by simp
  then show ?thesis unfolding next_set_no_loaded m by simp
qed


lemma mset_group_set_nos:
  "mset (group_set_nos data d ex)
     = image_mset (\<lambda>r. the (set_no r))
         (filter_mset (\<lambda>r. date r = d \<and> exercise r = ex \<and> set_no r \<noteq> None) (mset data))"
  by (simp add: group_set_nos_def)

text \<open>
  C9. The automatically assigned set number of a (date, exercise) group is \<open>1\<close> when the
  stored rows have no row of the group, and it is greater than every set number of the
  group. When the stored rows after the insertion are the rows before it and the submitted
  row, the group's set numbers are the old ones and the new one; they stay distinct if they
  were, and the set numbers of every other group are the same as before.
\<close>

theorem next_set_no_fresh:
  "((\<forall>r\<in>set data. \<not> (date r = d \<and> exercise r = ex)) \<longrightarrow>
       next_set_no (db_load_sets data) d (Some ex) = 1)
   \<and> (\<forall>k\<in>set (group_set_nos data d ex). k < next_set_no (db_load_sets data) d (Some ex))
   \<and> (mset data' = add_mset (submitted_row (db_load_sets data) d ex w n t) (mset data) \<longrightarrow>
        mset (group_set_nos data' d ex)
          = add_mset (next_set_no (db_load_sets data) d (Some ex)) (mset (group_set_nos data d ex))
        \<and> (distinct (group_set_nos data d ex) \<longrightarrow> distinct (group_set_nos data' d ex))
        \<and> (\<forall>d' ex'. (d', ex') \<noteq> (d, ex) \<longrightarrow>
              mset (group_set_nos data' d' ex') = mset (group_set_nos data d' ex')))"
proof (intro conjI impI)
  assume "\<forall>r\<in>set data. \<not> (date r = d \<and> exercise r = ex)"
  then have "filter (\<lambda>r. date r = d \<and> exercise r = ex) data = []"
    by (simp add: filter_empty_conv)
  then show "next_set_no (db_load_sets data) d (Some ex) = 1"
    by (simp add: next_set_no_loaded)
next
  show "\<forall>k\<in>set (group_set_nos data d ex). k < next_set_no (db_load_sets data) d (Some ex)"
    using group_set_nos_below_next by blast
next
  assume a: "mset data' = add_mset (submitted_row (db_load_sets data) d ex w n t) (mset data)"
  show m: "mset (group_set_nos data' d ex)
          = add_mset (next_set_no (db_load_sets data) d (Some ex)) (mset (group_set_nos data d ex))"
    unfolding mset_group_set_nos a by (simp add: submitted_row_def)
  show "\<forall>d' ex'. (d', ex') \<noteq> (d, ex) \<longrightarrow>
              mset (group_set_nos data' d' ex') = mset (group_set_nos data d' ex')"
    unfolding mset_group_set_nos a by (auto simp: submitted_row_def)
  assume dist: "distinct (group_set_nos data d ex)"
  have "next_set_no (db_load_sets data) d (Some ex) \<notin> set (group_set_nos data d ex)"
    using group_set_nos_below_next by force
  then have "distinct (next_set_no (db_load_sets data) d (Some ex) # group_set_nos data d ex)"
    using dist by simp
  moreover have "mset (group_set_nos data' d ex)
      = mset (next_set_no (db_load_sets data) d (Some ex) # group_set_nos data d ex)"
    using m by simp
  ultimately show "distinct (group_set_nos data' d ex)"
    using mset_eq_imp_distinct_iff by blast
qed


theorem next_set_no_fresh_witness:
  "next_set_no (db_load_sets example_log) 3 (Some ''Bench'') = 1
   \<and> group_set_nos example_log 2 ''Bench'' = [2, 1, 3]
   \<and> next_set_no (db_load_sets example_log) 2 (Some ''Bench'') = 4
   \<and> distinct (group_set_nos
         (example_log @ [submitted_row (db_load_sets example_log) 2 ''Bench'' 80 5 []]) 2 ''Bench'')"
proof -
  define row where "row = submitted_row (db_load_sets example_log) 2 ''Bench'' 80 5 []"
  note t3 = next_set_no_fresh [of example_log 3 "''Bench''" "[]" 0 0 "[]"]
  have e3: "\<forall>r\<in>set example_log. \<not> (date r = 3 \<and> exercise r = ''Bench'')"
    by code_simp
  from t3 have "(\<forall>r\<in>set example_log. \<not> (date r = 3 \<and> exercise r = ''Bench'')) \<longrightarrow>
       next_set_no (db_load_sets example_log) 3 (Some ''Bench'') = 1"
    by (rule conjunct1)
  then have a: "next_set_no (db_load_sets example_log) 3 (Some ''Bench'') = 1"
    using e3 by (rule mp)
  have g: "group_set_nos example_log 2 ''Bench'' = [2, 1, 3]" by code_simp
  have nx: "next_set_no (db_load_sets example_log) 2 (Some ''Bench'') = 4" by code_simp
  have dg: "distinct (group_set_nos example_log 2 ''Bench'')" unfolding g by simp
  have ms: "mset (example_log @ [row]) = add_mset row (mset example_log)" by simp
  note t2 = next_set_no_fresh [of example_log 2 "''Bench''" "example_log @ [row]" 80 5 "[]"]
  from t2 have "mset (example_log @ [row])
        = add_mset (submitted_row (db_load_sets example_log) 2 ''Bench'' 80 5 []) (mset example_log) \<longrightarrow>
        mset (group_set_nos (example_log @ [row]) 2 ''Bench'')
          = add_mset (next_set_no (db_load_sets example_log) 2 (Some ''Bench''))
              (mset (group_set_nos example_log 2 ''Bench''))
        \<and> (distinct (group_set_nos example_log 2 ''Bench'') \<longrightarrow>
             distinct (group_set_nos (example_log @ [row]) 2 ''Bench''))
        \<and> (\<forall>d' ex'. (d', ex') \<noteq> (2, ''Bench'') \<longrightarrow>
              mset (group_set_nos (example_log @ [row]) d' ex') = mset (group_set_nos example_log d' ex'))"
    by (rule conjunct2 [OF conjunct2])
  then have "distinct (group_set_nos example_log 2 ''Bench'') \<longrightarrow>
             distinct (group_set_nos (example_log @ [row]) 2 ''Bench'')"
    using ms unfolding row_def by blast
  then have d: "distinct (group_set_nos (example_log @ [row]) 2 ''Bench'')"
    using dg by (rule mp)
  show ?thesis using a g nx d unfolding row_def by (intro conjI)
qed

end
